theory Spec2Isabelle
  imports Main
begin

section \<open>JavaScript values\<close>

text \<open>
  The tracker of \<^verbatim>\<open>src/index.js\<close> handles numbers (widths and breakpoints, integers
  in pixels), \<^verbatim>\<open>undefined\<close> (an index outside an array, a variable never assigned)
  and \<^verbatim>\<open>null\<close> (the value \<^verbatim>\<open>_reset\<close> stores).
\<close>

datatype jsval = Undefined | Null | Num int

datatype error = TypeError

text \<open>\<^verbatim>\<open>!v\<close>: \<^verbatim>\<open>undefined\<close>, \<^verbatim>\<open>null\<close> and \<^verbatim>\<open>0\<close> are falsy.\<close>

fun falsy :: "jsval \<Rightarrow> bool" where
  "falsy Undefined = True"
| "falsy Null = True"
| "falsy (Num n) = (n = 0)"

text \<open>Conversion to a number for the relational operators; \<open>None\<close> is NaN.\<close>

fun toNumber :: "jsval \<Rightarrow> int option" where
  "toNumber Undefined = None"
| "toNumber Null = Some 0"
| "toNumber (Num n) = Some n"

definition js_le :: "jsval \<Rightarrow> jsval \<Rightarrow> bool" where
  "js_le a b = (case (toNumber a, toNumber b) of (Some x, Some y) \<Rightarrow> x \<le> y | _ \<Rightarrow> False)"

definition js_lt :: "jsval \<Rightarrow> jsval \<Rightarrow> bool" where
  "js_lt a b = (case (toNumber a, toNumber b) of (Some x, Some y) \<Rightarrow> x < y | _ \<Rightarrow> False)"

definition js_ge :: "jsval \<Rightarrow> jsval \<Rightarrow> bool" where
  "js_ge a b = (case (toNumber a, toNumber b) of (Some x, Some y) \<Rightarrow> y \<le> x | _ \<Rightarrow> False)"

text \<open>\<^verbatim>\<open>arr[i]\<close>: an index outside the array reads \<^verbatim>\<open>undefined\<close>.\<close>

definition arr_get :: "int list \<Rightarrow> int \<Rightarrow> jsval" where
  "arr_get xs i = (if 0 \<le> i \<and> i < int (length xs) then Num (xs ! nat i) else Undefined)"

section \<open>The state of the module\<close>

text \<open>
  Arrays live in a store, addressed by references, because \<^verbatim>\<open>_configure\<close> keeps the
  array it is given and sorts it in place. A JavaScript reference is never dangling, so
  the store is a total function; \<open>nextRef\<close> is the first address not yet allocated.
\<close>

type_synonym ref = nat

text \<open>
  The shape shared by \<^verbatim>\<open>_defaults\<close>, \<^verbatim>\<open>_options\<close> and a settings object: each of the two
  recognised keys is present or absent.
\<close>

record config =
  classBody :: "bool option"
  breakpoints :: "ref option"

datatype signal_name = EnterAt jsval | EnterAny | ExitAt jsval | ExitAny

text \<open>
  One call of \<^verbatim>\<open>_observable.trigger(name, payload)\<close>; the third component is the value
  \<^verbatim>\<open>_currentBreakpoint\<close> holds while the subscribers run.
\<close>

datatype emission = Trigger signal_name jsval jsval

record tracker =
  width :: int
  currentBreakpoint :: jsval
  options :: config
  defaults :: config
  heap :: "ref \<Rightarrow> int list"
  nextRef :: ref
  bodyClasses :: "jsval list"
  emitted :: "emission list"
  resizeHandlers :: nat
  focusListener :: bool

text \<open>
  \<open>bodyClasses\<close> holds the tokens \<^verbatim>\<open>'breakpoint-' + v\<close> of the body's class list, each
  named by its \<open>v\<close>. \<open>resizeHandlers\<close> counts the handlers registered under
  \<^verbatim>\<open>'resize.breakpoint'\<close> on the external window signal; \<open>focusListener\<close> says
  whether \<^verbatim>\<open>_resize\<close> is a listener of the window's focus event.
\<close>

definition initial :: "int \<Rightarrow> tracker" where
  "initial w =
     \<lparr> width = w,
       currentBreakpoint = Undefined,
       options = \<lparr> classBody = None, breakpoints = None \<rparr>,
       defaults = \<lparr> classBody = Some True, breakpoints = Some 0 \<rparr>,
       heap = (\<lambda>_. [])(0 := [320, 480, 768, 992, 1200]),
       nextRef = 1,
       bodyClasses = [],
       emitted = [],
       resizeHandlers = 0,
       focusListener = False \<rparr>"

section \<open>The mini DOM wrapper and the external signals\<close>

text \<open>
  \<^verbatim>\<open>elem.addEventListener('focus', _resize)\<close>: the DOM keeps one registration of the
  same listener however often it is added.
\<close>

definition addEventListener :: "tracker \<Rightarrow> tracker" where
  "addEventListener s = s\<lparr>focusListener := True\<rparr>"

definition Dom_on :: "tracker \<Rightarrow> tracker" where
  "Dom_on s = addEventListener s"

text \<open>\<^verbatim>\<open>Dom.prototype.off\<close> calls \<^verbatim>\<open>addEventListener\<close> as well.\<close>

definition Dom_off :: "tracker \<Rightarrow> tracker" where
  "Dom_off s = addEventListener s"

text \<open>\<^verbatim>\<open>classList.add\<close> and \<^verbatim>\<open>classList.remove\<close> on the body.\<close>

definition addClass :: "tracker \<Rightarrow> jsval \<Rightarrow> tracker" where
  "addClass s v =
     s\<lparr>bodyClasses := (if v \<in> set (bodyClasses s) then bodyClasses s else bodyClasses s @ [v])\<rparr>"

definition removeClass :: "tracker \<Rightarrow> jsval \<Rightarrow> tracker" where
  "removeClass s v = s\<lparr>bodyClasses := removeAll v (bodyClasses s)\<rparr>"

text \<open>
  The window signal of the external package: \<^verbatim>\<open>on\<close> registers one more handler under
  the namespaced name, \<^verbatim>\<open>off\<close> with that name drops them all.
\<close>

definition signalWindow_on :: "tracker \<Rightarrow> tracker" where
  "signalWindow_on s = s\<lparr>resizeHandlers := Suc (resizeHandlers s)\<rparr>"

definition signalWindow_off :: "tracker \<Rightarrow> tracker" where
  "signalWindow_off s = s\<lparr>resizeHandlers := 0\<rparr>"

definition trigger :: "tracker \<Rightarrow> signal_name \<Rightarrow> jsval \<Rightarrow> tracker" where
  "trigger s name v = s\<lparr>emitted := emitted s @ [Trigger name v (currentBreakpoint s)]\<rparr>"

section \<open>Determining the breakpoint\<close>

text \<open>The \<^verbatim>\<open>for\<close> loop of \<^verbatim>\<open>_determineCurrentBreakpoint\<close>, from index \<open>idx\<close> on.\<close>

function determineLoop :: "int \<Rightarrow> int list \<Rightarrow> nat \<Rightarrow> jsval" where
  "determineLoop w bps idx =
     (if idx < length bps then
        (let prevbreakpoint = arr_get bps (int idx - 1);
             breakpoint = arr_get bps (int idx);
             nextbreakpoint = arr_get bps (int idx + 1)
         in if falsy prevbreakpoint \<and> js_le (Num w) breakpoint then breakpoint
            else if falsy nextbreakpoint then breakpoint
            else if js_ge (Num w) breakpoint \<and> js_lt (Num w) nextbreakpoint then breakpoint
            else determineLoop w bps (idx + 1))
      else Num (- 1))"
  by pat_completeness auto
termination
  by (relation "measure (\<lambda>(w, bps, idx). length bps - idx)") auto

declare determineLoop.simps [simp del]

text \<open>
  \<^verbatim>\<open>_options.breakpoints.length\<close> throws a TypeError while \<^verbatim>\<open>_options\<close> has no
  \<^verbatim>\<open>breakpoints\<close> key, which is so until the first \<^verbatim>\<open>_configure\<close>.
\<close>

definition determineCurrentBreakpoint :: "tracker \<Rightarrow> error + jsval" where
  "determineCurrentBreakpoint s =
     (case breakpoints (options s) of
        None \<Rightarrow> Inl TypeError
      | Some r \<Rightarrow> Inr (determineLoop (width s) (heap s r) 0))"

section \<open>Enter and exit\<close>

definition enterBreakpoint :: "tracker \<Rightarrow> jsval \<Rightarrow> tracker" where
  "enterBreakpoint s breakpoint =
     (if falsy breakpoint \<or> js_le breakpoint (Num 0) then s
      else
        let s1 = (if classBody (options s) = Some True then addClass s breakpoint else s);
            s2 = trigger s1 (EnterAt breakpoint) breakpoint
        in trigger s2 EnterAny breakpoint)"

definition exitBreakpoint :: "tracker \<Rightarrow> jsval \<Rightarrow> tracker" where
  "exitBreakpoint s breakpoint =
     (if falsy breakpoint \<or> js_le breakpoint (Num 0) then s
      else
        let s1 = (if classBody (options s) = Some True then removeClass s breakpoint else s);
            s2 = trigger s1 (ExitAt breakpoint) breakpoint
        in trigger s2 ExitAny breakpoint)"

section \<open>Resize\<close>

text \<open>
  A call that throws leaves the state as it was at the throw; the left summand carries
  that state with the error.
\<close>

definition resize :: "tracker \<Rightarrow> (error \<times> tracker) + tracker" where
  "resize s =
     (case determineCurrentBreakpoint s of
        Inl e \<Rightarrow> Inl (e, s)
      | Inr resizeBreakpoint \<Rightarrow>
          if resizeBreakpoint = currentBreakpoint s then Inr s
          else
            let s1 = exitBreakpoint s (currentBreakpoint s);
                s2 = enterBreakpoint s1 resizeBreakpoint
            in Inr (s2\<lparr>currentBreakpoint := resizeBreakpoint\<rparr>))"

text \<open>The handler \<^verbatim>\<open>function(e) { _width = e.width; _resize(); }\<close> of \<^verbatim>\<open>_bind\<close>.\<close>

definition onResize :: "tracker \<Rightarrow> int \<Rightarrow> (error \<times> tracker) + tracker" where
  "onResize s w = resize (s\<lparr>width := w\<rparr>)"

section \<open>Bind and unbind\<close>

definition bind :: "tracker \<Rightarrow> tracker" where
  "bind s = Dom_on (signalWindow_on s)"

definition unbind :: "tracker \<Rightarrow> tracker" where
  "unbind s = Dom_off (signalWindow_off s)"

section \<open>Configure, get, reset\<close>

text \<open>\<^verbatim>\<open>for (key in src) { dst[key] = src[key]; }\<close>\<close>

definition assign :: "config \<Rightarrow> config \<Rightarrow> config" where
  "assign dst src =
     \<lparr> classBody = (case classBody src of None \<Rightarrow> classBody dst | Some b \<Rightarrow> Some b),
       breakpoints = (case breakpoints src of None \<Rightarrow> breakpoints dst | Some r \<Rightarrow> Some r) \<rparr>"

text \<open>
  \<^verbatim>\<open>arr.sort(function(a, b) { return a - b; })\<close> sorts the array in place, ascending, and
  returns the same array.
\<close>

definition numericSort :: "tracker \<Rightarrow> ref \<Rightarrow> tracker \<times> ref" where
  "numericSort s arr = (s\<lparr>heap := (heap s)(arr := sort (heap s arr))\<rparr>, arr)"

definition configure :: "tracker \<Rightarrow> config \<Rightarrow> (error \<times> tracker) + tracker" where
  "configure s settings =
     (let s1 = s\<lparr>options := assign (options s) (defaults s)\<rparr>;
          s2 = s1\<lparr>options := assign (options s1) settings\<rparr>
      in case breakpoints (options s2) of
           None \<Rightarrow> Inl (TypeError, s2)
         | Some arr \<Rightarrow>
             (let (s3, sorted_arr) = numericSort s2 arr;
                  s4 = s3\<lparr>options := (options s3)\<lparr>breakpoints := Some sorted_arr\<rparr>\<rparr>;
                  s5 = bind s4
              in case determineCurrentBreakpoint s5 of
                   Inl e \<Rightarrow> Inl (e, s5)
                 | Inr v \<Rightarrow> Inr (enterBreakpoint (s5\<lparr>currentBreakpoint := v\<rparr>) v)))"

text \<open>
  \<^verbatim>\<open>JSON.parse(JSON.stringify(_options))\<close> builds a new object, and a new array for
  its \<^verbatim>\<open>breakpoints\<close> with the same elements.
\<close>

definition getConfig :: "tracker \<Rightarrow> config \<times> tracker" where
  "getConfig s =
     (case breakpoints (options s) of
        None \<Rightarrow> (\<lparr> classBody = classBody (options s), breakpoints = None \<rparr>, s)
      | Some r \<Rightarrow>
          (\<lparr> classBody = classBody (options s), breakpoints = Some (nextRef s) \<rparr>,
           s\<lparr>heap := (heap s)(nextRef s := heap s r), nextRef := Suc (nextRef s)\<rparr>))"

definition getCurrent :: "tracker \<Rightarrow> (error \<times> tracker) + (jsval \<times> tracker)" where
  "getCurrent s =
     (case determineCurrentBreakpoint s of
        Inl e \<Rightarrow> Inl (e, s)
      | Inr v \<Rightarrow> Inr (v, s\<lparr>currentBreakpoint := v\<rparr>))"

definition reset :: "tracker \<Rightarrow> tracker" where
  "reset s =
     (let s1 = unbind s;
          s2 = exitBreakpoint s1 (currentBreakpoint s1)
      in s2\<lparr>currentBreakpoint := Null\<rparr>)"

section \<open>Events reaching the module\<close>

text \<open>
  A width change runs every handler registered under \<^verbatim>\<open>'resize.breakpoint'\<close>, in
  turn; a focus event runs \<^verbatim>\<open>_resize\<close> when it is a listener.
\<close>

primrec callHandlers :: "nat \<Rightarrow> int \<Rightarrow> tracker \<Rightarrow> (error \<times> tracker) + tracker" where
  "callHandlers 0 w s = Inr s"
| "callHandlers (Suc n) w s =
     (case onResize s w of Inl e \<Rightarrow> Inl e | Inr s' \<Rightarrow> callHandlers n w s')"

definition windowResize :: "tracker \<Rightarrow> int \<Rightarrow> (error \<times> tracker) + tracker" where
  "windowResize s w = callHandlers (resizeHandlers s) w s"

definition windowFocus :: "tracker \<Rightarrow> (error \<times> tracker) + tracker" where
  "windowFocus s = (if focusListener s then resize s else Inr s)"

section \<open>Callers\<close>

text \<open>
  What code outside the module does with the store: it creates arrays, and writes to the
  arrays it holds. \<open>noSettings\<close> is the settings object \<^verbatim>\<open>{}\<close>.
\<close>

definition noSettings :: config where
  "noSettings = \<lparr> classBody = None, breakpoints = None \<rparr>"

definition newArray :: "tracker \<Rightarrow> int list \<Rightarrow> ref \<times> tracker" where
  "newArray s xs = (nextRef s, s\<lparr>heap := (heap s)(nextRef s := xs), nextRef := Suc (nextRef s)\<rparr>)"

definition writeArray :: "tracker \<Rightarrow> ref \<Rightarrow> int list \<Rightarrow> tracker" where
  "writeArray s r xs = s\<lparr>heap := (heap s)(r := xs)\<rparr>"

text \<open>The array of a configuration object, if it has one, has been allocated.\<close>

definition allocated :: "tracker \<Rightarrow> config \<Rightarrow> bool" where
  "allocated s c = (case breakpoints c of None \<Rightarrow> True | Some r \<Rightarrow> r < nextRef s)"

text \<open>The value of a configuration object: its flag and the elements of its array.\<close>

definition config_value :: "(ref \<Rightarrow> int list) \<Rightarrow> config \<Rightarrow> bool option \<times> int list option" where
  "config_value h c = (classBody c, map_option h (breakpoints c))"

text \<open>The state a call leaves, whether it returned or threw.\<close>

definition state_of :: "(error \<times> tracker) + tracker \<Rightarrow> tracker" where
  "state_of res = (case res of Inl (e, s) \<Rightarrow> s | Inr s \<Rightarrow> s)"

text \<open>Sequences of calls and events; a throw ends the sequence.\<close>

datatype call = ResizeEvent int | FocusEvent | GetCurrent | GetConfig | Reset

fun step :: "tracker \<Rightarrow> call \<Rightarrow> (error \<times> tracker) + tracker" where
  "step s (ResizeEvent w) = windowResize s w"
| "step s FocusEvent = windowFocus s"
| "step s GetCurrent = (case getCurrent s of Inl e \<Rightarrow> Inl e | Inr (v, s') \<Rightarrow> Inr s')"
| "step s GetConfig = Inr (snd (getConfig s))"
| "step s Reset = Inr (reset s)"

fun run :: "tracker \<Rightarrow> call list \<Rightarrow> (error \<times> tracker) + tracker" where
  "run s [] = Inr s"
| "run s (c # cs) = (case step s c of Inl e \<Rightarrow> Inl e | Inr s' \<Rightarrow> run s' cs)"

fun configureAll :: "tracker \<Rightarrow> config list \<Rightarrow> (error \<times> tracker) + tracker" where
  "configureAll s [] = Inr s"
| "configureAll s (c # cs) =
     (case configure s c of Inl e \<Rightarrow> Inl e | Inr s' \<Rightarrow> configureAll s' cs)"

text \<open>
  Example inputs: the module configured with \<^verbatim>\<open>{}\<close> in a window 600 pixels wide, and
  a caller holding the unsorted array \<^verbatim>\<open>[768, 320, 1200]\<close>.
\<close>

definition at600 :: tracker where
  "at600 = state_of (configure (initial 600) noSettings)"

definition withArray :: tracker where
  "withArray = snd (newArray (initial 600) [768, 320, 1200])"

definition arraySettings :: config where
  "arraySettings = \<lparr> classBody = Some False, breakpoints = Some 1 \<rparr>"

definition at800 :: tracker where
  "at800 = state_of (configure (initial 800) noSettings)"

text \<open>
  What holds of the module once it has been configured: the options refer to an
  allocated array that is ascending, and the active breakpoint is one of its elements,
  \<open>-1\<close> or \<^verbatim>\<open>null\<close>.
\<close>

definition configured_inv :: "tracker \<Rightarrow> bool" where
  "configured_inv s \<longleftrightarrow>
     (\<exists>r. breakpoints (options s) = Some r \<and> r < nextRef s \<and> sorted (heap s r) \<and>
          (currentBreakpoint s \<in> Num ` set (heap s r) \<or>
           currentBreakpoint s = Num (- 1) \<or> currentBreakpoint s = Null))"

text \<open>
  Index \<open>k\<close> is the bucket of width \<open>w\<close>: the first breakpoint when \<open>w\<close> is not above
  it, otherwise the breakpoint at or below \<open>w\<close> whose successor, if any, is above \<open>w\<close>.
\<close>

definition bucket_at :: "int \<Rightarrow> int list \<Rightarrow> nat \<Rightarrow> bool" where
  "bucket_at w bps k \<longleftrightarrow>
     k < length bps \<and>
     (k = 0 \<and> w \<le> bps ! 0 \<or>
      bps ! k \<le> w \<and> (Suc k < length bps \<longrightarrow> w < bps ! Suc k))"

section \<open>The breakpoint of a width\<close>

lemma arr_get_in: "idx < length bps \<Longrightarrow> arr_get bps (int idx) = Num (bps ! idx)"
  by (simp add: arr_get_def)

lemma pos_nth: "\<forall>b\<in>set bps. 0 < b \<Longrightarrow> i < length bps \<Longrightarrow> bps ! i \<noteq> (0::int)"
  using nth_mem by fastforce

lemma arr_get_prev:
  "\<forall>b\<in>set bps. 0 < b \<Longrightarrow> idx < length bps \<Longrightarrow> falsy (arr_get bps (int idx - 1)) \<longleftrightarrow> idx = 0"
proof (cases idx)
  case 0
  then show ?thesis by (simp add: arr_get_def)
next
  case (Suc j)
  assume "\<forall>b\<in>set bps. 0 < b" "idx < length bps"
  then have "bps ! j \<noteq> 0" using Suc pos_nth [of bps j] by simp
  moreover have "arr_get bps (int idx - 1) = Num (bps ! j)"
    using Suc \<open>idx < length bps\<close> by (simp add: arr_get_def)
  ultimately show ?thesis using Suc by simp
qed

lemma arr_get_next:
  "\<forall>b\<in>set bps. 0 < b \<Longrightarrow> idx < length bps \<Longrightarrow>
     falsy (arr_get bps (int idx + 1)) \<longleftrightarrow> Suc idx = length bps"
proof (cases "Suc idx < length bps")
  case True
  assume "\<forall>b\<in>set bps. 0 < b"
  then have "bps ! Suc idx \<noteq> 0" using True pos_nth [of bps "Suc idx"] by simp
  moreover have "arr_get bps (int idx + 1) = Num (bps ! Suc idx)"
    using True by (simp add: arr_get_def nat_add_distrib)
  ultimately show ?thesis using True by simp
next
  case False
  assume "idx < length bps"
  then show ?thesis using False by (simp add: arr_get_def)
qed

lemma arr_get_next_val:
  "Suc idx < length bps \<Longrightarrow> arr_get bps (int idx + 1) = Num (bps ! Suc idx)"
  by (simp add: arr_get_def nat_add_distrib)

lemma determineLoop_unfold:
  assumes pos: "\<forall>b\<in>set bps. 0 < b" and idx: "idx < length bps"
  shows "determineLoop w bps idx =
     (if idx = 0 \<and> w \<le> bps ! idx then Num (bps ! idx)
      else if Suc idx = length bps then Num (bps ! idx)
      else if bps ! idx \<le> w \<and> w < bps ! Suc idx then Num (bps ! idx)
      else determineLoop w bps (Suc idx))"
proof -
  have here: "arr_get bps (int idx) = Num (bps ! idx)"
    using idx by (rule arr_get_in)
  have prev: "falsy (arr_get bps (int idx - 1)) \<longleftrightarrow> idx = 0"
    using pos idx by (rule arr_get_prev)
  have nxt: "falsy (arr_get bps (int idx + 1)) \<longleftrightarrow> Suc idx = length bps"
    using pos idx by (rule arr_get_next)
  show ?thesis
  proof (cases "Suc idx < length bps")
    case True
    have nv: "arr_get bps (int idx + 1) = Num (bps ! Suc idx)"
      using True by (rule arr_get_next_val)
    have nz: "bps ! Suc idx \<noteq> 0"
      using pos True by (rule pos_nth)
    have "determineLoop w bps idx =
       (if idx = 0 \<and> w \<le> bps ! idx then Num (bps ! idx)
        else if bps ! idx \<le> w \<and> w < bps ! Suc idx then Num (bps ! idx)
        else determineLoop w bps (Suc idx))"
      using idx nz
      by (subst determineLoop.simps)
         (auto simp: Let_def here prev nv js_le_def js_ge_def js_lt_def)
    then show ?thesis
      using True by auto
  next
    case False
    then have last: "Suc idx = length bps" using idx by simp
    show ?thesis
      using idx last nxt
      by (subst determineLoop.simps) (auto simp: Let_def here prev js_le_def)
  qed
qed

lemma determineLoop_bucket:
  assumes pos: "\<forall>b\<in>set bps. 0 < b"
  shows "idx < length bps \<Longrightarrow> (0 < idx \<longrightarrow> bps ! idx \<le> w) \<Longrightarrow>
     \<exists>k. bucket_at w bps k \<and> determineLoop w bps idx = Num (bps ! k)"
proof (induction "length bps - idx" arbitrary: idx)
  case 0
  then show ?case by simp
next
  case (Suc n)
  note unf = determineLoop_unfold [OF pos Suc.prems(1), of w]
  consider (first) "idx = 0 \<and> w \<le> bps ! idx"
    | (last) "\<not> (idx = 0 \<and> w \<le> bps ! idx)" "Suc idx = length bps"
    | (between) "\<not> (idx = 0 \<and> w \<le> bps ! idx)" "Suc idx \<noteq> length bps"
        "bps ! idx \<le> w \<and> w < bps ! Suc idx"
    | (further) "\<not> (idx = 0 \<and> w \<le> bps ! idx)" "Suc idx \<noteq> length bps"
        "\<not> (bps ! idx \<le> w \<and> w < bps ! Suc idx)"
    by blast
  then show ?case
  proof cases
    case first
    then have "bucket_at w bps idx" using Suc.prems(1) by (auto simp: bucket_at_def)
    moreover have "determineLoop w bps idx = Num (bps ! idx)" using unf first by auto
    ultimately show ?thesis by blast
  next
    case last
    have "bps ! idx \<le> w" using last(1) Suc.prems(2) by (cases "idx = 0") auto
    then have "bucket_at w bps idx" using last(2) by (simp add: bucket_at_def)
    moreover have "determineLoop w bps idx = Num (bps ! idx)" using unf last by auto
    ultimately show ?thesis by blast
  next
    case between
    then have "bucket_at w bps idx" using Suc.prems(1) by (simp add: bucket_at_def)
    moreover have "determineLoop w bps idx = Num (bps ! idx)" using unf between by auto
    ultimately show ?thesis by blast
  next
    case further
    have le: "bps ! idx \<le> w" using further(1) Suc.prems(2) by (cases "idx = 0") auto
    have lt: "Suc idx < length bps" using further(2) Suc.prems(1) by simp
    have "\<exists>k. bucket_at w bps k \<and> determineLoop w bps (Suc idx) = Num (bps ! k)"
    proof (rule Suc.hyps(1))
      show "n = length bps - Suc idx" using Suc.hyps(2) by simp
      show "Suc idx < length bps" by (rule lt)
      show "0 < Suc idx \<longrightarrow> bps ! Suc idx \<le> w" using further(3) le by simp
    qed
    moreover have "determineLoop w bps idx = determineLoop w bps (Suc idx)"
      using unf further by auto
    ultimately show ?thesis by simp
  qed
qed

lemma sorted_nth_less:
  "sorted_wrt (<) (bps::int list) \<Longrightarrow> i < j \<Longrightarrow> j < length bps \<Longrightarrow> bps ! i < bps ! j"
  by (simp add: sorted_wrt_iff_nth_less)

lemma bucket_at_below:
  assumes srt: "sorted_wrt (<) bps" and b: "bucket_at w bps k" and none: "\<not> (\<exists>b\<in>set bps. b \<le> w)"
  shows "\<forall>b\<in>set bps. bps ! k \<le> b"
proof -
  have k: "k < length bps" using b by (simp add: bucket_at_def)
  then have "bps ! k \<in> set bps" by simp
  then have "\<not> bps ! k \<le> w" using none by blast
  then have k0: "k = 0" using b by (auto simp: bucket_at_def)
  show ?thesis
  proof
    fix b assume "b \<in> set bps"
    then obtain j where j: "j < length bps" "b = bps ! j" by (auto simp: in_set_conv_nth)
    show "bps ! k \<le> b"
    proof (cases "j = 0")
      case True then show ?thesis using j k0 by simp
    next
      case False
      then have "bps ! 0 < bps ! j" using srt j by (intro sorted_nth_less) auto
      then show ?thesis using j k0 by simp
    qed
  qed
qed

lemma bucket_at_greatest:
  assumes srt: "sorted_wrt (<) bps" and b: "bucket_at w bps k" and some: "\<exists>b\<in>set bps. b \<le> w"
  shows "bps ! k \<le> w \<and> (\<forall>b\<in>set bps. b \<le> w \<longrightarrow> b \<le> bps ! k)"
proof -
  have k: "k < length bps" using b by (simp add: bucket_at_def)
  have above: "j < length bps \<Longrightarrow> k < j \<Longrightarrow> bps ! k < bps ! j" for j
    using srt by (rule sorted_nth_less)
  have below: "j < length bps \<Longrightarrow> j \<le> k \<Longrightarrow> bps ! j \<le> bps ! k" for j
    using srt k sorted_nth_less [of bps j k] by (cases "j = k") auto
  consider (first) "k = 0" "w \<le> bps ! 0"
    | (inner) "bps ! k \<le> w" "Suc k < length bps \<longrightarrow> w < bps ! Suc k"
    using b by (auto simp: bucket_at_def)
  then show ?thesis
  proof cases
    case first
    obtain b0 where b0: "b0 \<in> set bps" "b0 \<le> w" using some by blast
    then obtain j where j: "j < length bps" "b0 = bps ! j" by (auto simp: in_set_conv_nth)
    have eq: "bps ! 0 = w"
    proof (cases "j = 0")
      case True then show ?thesis using first b0 j by simp
    next
      case False
      then have "bps ! 0 < bps ! j" using above [of j] j first by simp
      then show ?thesis using first b0 j by simp
    qed
    have "\<forall>b\<in>set bps. b \<le> w \<longrightarrow> b \<le> bps ! k"
      using eq first by simp
    then show ?thesis using eq first by simp
  next
    case inner
    have "\<forall>b\<in>set bps. b \<le> w \<longrightarrow> b \<le> bps ! k"
    proof (intro ballI impI)
      fix b assume "b \<in> set bps" and bw: "b \<le> w"
      then obtain j where j: "j < length bps" "b = bps ! j" by (auto simp: in_set_conv_nth)
      show "b \<le> bps ! k"
      proof (cases "j \<le> k")
        case True then show ?thesis using below j by simp
      next
        case False
        then have sk: "Suc k < length bps" using j by simp
        then have "w < bps ! Suc k" using inner by simp
        moreover have "bps ! Suc k \<le> bps ! j"
          using srt sk j False sorted_nth_less [of bps "Suc k" j] by (cases "j = Suc k") auto
        ultimately show ?thesis using bw j by simp
      qed
    qed
    then show ?thesis using inner by simp
  qed
qed

text \<open>
  C1. For an ascending sequence of distinct positive breakpoints and any width,
  \<^verbatim>\<open>_determineCurrentBreakpoint\<close> returns \<open>-1\<close> when the sequence is empty and otherwise
  a member of it: the largest breakpoint not above the width, or the smallest
  breakpoint when the width is below them all.
\<close>

theorem C1_determineCurrentBreakpoint:
  assumes opt: "breakpoints (options s) = Some r"
    and srt: "sorted_wrt (<) (heap s r)"
    and pos: "\<forall>b\<in>set (heap s r). 0 < b"
  shows "(heap s r = [] \<longrightarrow> determineCurrentBreakpoint s = Inr (Num (- 1))) \<and>
         (heap s r \<noteq> [] \<longrightarrow>
            (\<exists>v. determineCurrentBreakpoint s = Inr (Num v) \<and> v \<in> set (heap s r) \<and>
                 (if \<exists>b\<in>set (heap s r). b \<le> width s
                  then v = Max {b \<in> set (heap s r). b \<le> width s}
                  else v = Min (set (heap s r)))))"
proof (intro conjI impI)
  assume "heap s r = []"
  then show "determineCurrentBreakpoint s = Inr (Num (- 1))"
    using opt by (simp add: determineCurrentBreakpoint_def determineLoop.simps)
next
  let ?B = "heap s r" and ?w = "width s"
  assume ne: "?B \<noteq> []"
  then have "0 < length ?B" by simp
  then obtain k where k: "bucket_at ?w ?B k" "determineLoop ?w ?B 0 = Num (?B ! k)"
    using determineLoop_bucket [OF pos, of 0 ?w] by auto
  have mem: "?B ! k \<in> set ?B" using k(1) by (simp add: bucket_at_def)
  have res: "determineCurrentBreakpoint s = Inr (Num (?B ! k))"
    using opt k(2) by (simp add: determineCurrentBreakpoint_def)
  have "if \<exists>b\<in>set ?B. b \<le> ?w then ?B ! k = Max {b \<in> set ?B. b \<le> ?w}
        else ?B ! k = Min (set ?B)"
  proof (cases "\<exists>b\<in>set ?B. b \<le> ?w")
    case True
    have g: "?B ! k \<le> ?w \<and> (\<forall>b\<in>set ?B. b \<le> ?w \<longrightarrow> b \<le> ?B ! k)"
      using srt k(1) True by (rule bucket_at_greatest)
    have "Max {b \<in> set ?B. b \<le> ?w} = ?B ! k"
      using g mem by (intro Max_eqI) auto
    then show ?thesis using True by simp
  next
    case False
    have l: "\<forall>b\<in>set ?B. ?B ! k \<le> b"
      using srt k(1) False by (rule bucket_at_below)
    have "Min (set ?B) = ?B ! k"
      using l mem by (intro Min_eqI) auto
    then show ?thesis using False by simp
  qed
  then show "\<exists>v. determineCurrentBreakpoint s = Inr (Num v) \<and> v \<in> set ?B \<and>
                 (if \<exists>b\<in>set ?B. b \<le> ?w
                  then v = Max {b \<in> set ?B. b \<le> ?w}
                  else v = Min (set ?B))"
    using res mem by blast
qed


section \<open>The example inputs, evaluated\<close>

lemma determineLoop_default_600:
  "determineLoop 600 [320, 480, 768, 992, 1200] 0 = Num 480"
  by (simp add: determineLoop.simps arr_get_def js_le_def js_ge_def js_lt_def)

lemma at600_eq:
  "at600 =
     \<lparr> width = 600,
       currentBreakpoint = Num 480,
       options = \<lparr> classBody = Some True, breakpoints = Some 0 \<rparr>,
       defaults = \<lparr> classBody = Some True, breakpoints = Some 0 \<rparr>,
       heap = (\<lambda>_. [])(0 := [320, 480, 768, 992, 1200]),
       nextRef = 1,
       bodyClasses = [Num 480],
       emitted = [Trigger (EnterAt (Num 480)) (Num 480) (Num 480),
                  Trigger EnterAny (Num 480) (Num 480)],
       resizeHandlers = 1,
       focusListener = True \<rparr>"
  by (simp add: at600_def state_of_def configure_def initial_def noSettings_def assign_def numericSort_def bind_def
      Dom_on_def addEventListener_def signalWindow_on_def determineCurrentBreakpoint_def
      determineLoop_default_600 enterBreakpoint_def js_le_def addClass_def trigger_def Let_def)

lemma determineLoop_default_700:
  "determineLoop 700 [320, 480, 768, 992, 1200] 0 = Num 480"
  by (simp add: determineLoop.simps arr_get_def js_le_def js_ge_def js_lt_def)

lemma determineLoop_default_1300:
  "determineLoop 1300 [320, 480, 768, 992, 1200] 0 = Num 1200"
  by (simp add: determineLoop.simps arr_get_def js_le_def js_ge_def js_lt_def)

theorem C1_witness:
  "breakpoints (options at600) = Some 0 \<and>
   heap at600 0 = [320, 480, 768, 992, 1200] \<and>
   width at600 = 600 \<and>
   determineCurrentBreakpoint at600 = Inr (Num 480) \<and>
   Max {b \<in> set (heap at600 0). b \<le> width at600} = 480"
proof -
  have o: "breakpoints (options at600) = Some 0"
    by (simp add: at600_eq)
  have h: "heap at600 0 = [320, 480, 768, 992, 1200]"
    by (simp add: at600_eq)
  have w: "width at600 = 600"
    by (simp add: at600_eq)
  have s: "sorted_wrt (<) (heap at600 0)" by (simp add: h)
  have p: "\<forall>b\<in>set (heap at600 0). 0 < b" by (simp add: h)
  have d: "determineCurrentBreakpoint at600 = Inr (Num 480)"
    by (simp add: determineCurrentBreakpoint_def o h w determineLoop_default_600)
  have ex: "\<exists>b\<in>set (heap at600 0). b \<le> width at600"
    by (simp add: h w)
  have ne: "heap at600 0 \<noteq> []" by (simp add: h)
  from C1_determineCurrentBreakpoint [OF o s p] ne ex d
  have "Max {b \<in> set (heap at600 0). b \<le> width at600} = 480"
    by auto
  with o h w d show ?thesis by blast
qed

section \<open>Enter, exit and resize\<close>

lemma enterBreakpoint_frame:
  "width (enterBreakpoint s v) = width s"
  "currentBreakpoint (enterBreakpoint s v) = currentBreakpoint s"
  "options (enterBreakpoint s v) = options s"
  "defaults (enterBreakpoint s v) = defaults s"
  "heap (enterBreakpoint s v) = heap s"
  "nextRef (enterBreakpoint s v) = nextRef s"
  "resizeHandlers (enterBreakpoint s v) = resizeHandlers s"
  "focusListener (enterBreakpoint s v) = focusListener s"
  by (simp_all add: enterBreakpoint_def addClass_def trigger_def Let_def)

lemma exitBreakpoint_frame:
  "width (exitBreakpoint s v) = width s"
  "currentBreakpoint (exitBreakpoint s v) = currentBreakpoint s"
  "options (exitBreakpoint s v) = options s"
  "defaults (exitBreakpoint s v) = defaults s"
  "heap (exitBreakpoint s v) = heap s"
  "nextRef (exitBreakpoint s v) = nextRef s"
  "resizeHandlers (exitBreakpoint s v) = resizeHandlers s"
  "focusListener (exitBreakpoint s v) = focusListener s"
  by (simp_all add: exitBreakpoint_def removeClass_def trigger_def Let_def)

lemma exitBreakpoint_emitted:
  "emitted (exitBreakpoint s v) =
     emitted s @ (case v of Num b \<Rightarrow> if 0 < b
                    then [Trigger (ExitAt v) v (currentBreakpoint s),
                          Trigger ExitAny v (currentBreakpoint s)] else []
                  | _ \<Rightarrow> [])"
  by (cases v) (auto simp: exitBreakpoint_def removeClass_def trigger_def Let_def js_le_def)

lemma enterBreakpoint_emitted:
  "emitted (enterBreakpoint s v) =
     emitted s @ (case v of Num b \<Rightarrow> if 0 < b
                    then [Trigger (EnterAt v) v (currentBreakpoint s),
                          Trigger EnterAny v (currentBreakpoint s)] else []
                  | _ \<Rightarrow> [])"
  by (cases v) (auto simp: enterBreakpoint_def addClass_def trigger_def Let_def js_le_def)

lemma callHandlers_same:
  "determineCurrentBreakpoint (s\<lparr>width := w\<rparr>) = Inr (currentBreakpoint s) \<Longrightarrow>
     callHandlers (Suc n) w s = Inr (s\<lparr>width := w\<rparr>)"
  by (induction n) (simp_all add: onResize_def resize_def)

text \<open>
  C2. When the width a resize event delivers, or the stored width at a focus event,
  has the bucket that is already active, the handler emits nothing and changes nothing
  but the stored width.
\<close>

theorem C2_same_bucket:
  "(determineCurrentBreakpoint (s\<lparr>width := w\<rparr>) = Inr (currentBreakpoint s) \<longrightarrow>
      onResize s w = Inr (s\<lparr>width := w\<rparr>) \<and>
      windowResize s w = Inr (if resizeHandlers s = 0 then s else s\<lparr>width := w\<rparr>)) \<and>
   (determineCurrentBreakpoint s = Inr (currentBreakpoint s) \<longrightarrow>
      resize s = Inr s \<and> windowFocus s = Inr s)"
proof (intro conjI impI)
  assume same: "determineCurrentBreakpoint (s\<lparr>width := w\<rparr>) = Inr (currentBreakpoint s)"
  then show "onResize s w = Inr (s\<lparr>width := w\<rparr>)"
    by (simp add: onResize_def resize_def)
  show "windowResize s w = Inr (if resizeHandlers s = 0 then s else s\<lparr>width := w\<rparr>)"
  proof (cases "resizeHandlers s")
    case 0
    then show ?thesis by (simp add: windowResize_def)
  next
    case (Suc n)
    then show ?thesis using callHandlers_same [OF same] by (simp add: windowResize_def)
  qed
next
  assume same: "determineCurrentBreakpoint s = Inr (currentBreakpoint s)"
  then show "resize s = Inr s" by (simp add: resize_def)
  then show "windowFocus s = Inr s" by (simp add: windowFocus_def)
qed

theorem C2_witness:
  "determineCurrentBreakpoint (at600\<lparr>width := 700\<rparr>) = Inr (currentBreakpoint at600) \<and>
   onResize at600 700 = Inr (at600\<lparr>width := 700\<rparr>) \<and>
   windowResize at600 700 = Inr (at600\<lparr>width := 700\<rparr>) \<and>
   determineCurrentBreakpoint at600 = Inr (currentBreakpoint at600) \<and>
   windowFocus at600 = Inr at600"
proof -
  have a: "determineCurrentBreakpoint (at600\<lparr>width := 700\<rparr>) = Inr (currentBreakpoint at600)"
    by (simp add: at600_eq determineCurrentBreakpoint_def determineLoop_default_700)
  have b: "determineCurrentBreakpoint at600 = Inr (currentBreakpoint at600)"
    by (simp add: at600_eq determineCurrentBreakpoint_def determineLoop_default_600)
  have n: "resizeHandlers at600 \<noteq> 0" by (simp add: at600_eq)
  show ?thesis using C2_same_bucket [where s = at600 and w = 700] a b n by simp
qed

text \<open>
  C3. A resize event that moves the active bucket from one positive breakpoint to
  another emits, in this order, the specific exit signal and the generic exit signal
  for the old one, the specific enter signal and the generic enter signal for the new
  one, each with its breakpoint as payload; while all four are emitted the active
  breakpoint is still the old one, and it is the new one when the handler returns.
\<close>

theorem C3_resize_order:
  assumes new: "determineCurrentBreakpoint (s\<lparr>width := w\<rparr>) = Inr (Num new)"
    and old: "currentBreakpoint s = Num old"
    and changed: "new \<noteq> old"
    and pos: "0 < old" "0 < new"
  shows "\<exists>s'. onResize s w = Inr s' \<and>
           emitted s' = emitted s @
             [Trigger (ExitAt (Num old)) (Num old) (Num old),
              Trigger ExitAny (Num old) (Num old),
              Trigger (EnterAt (Num new)) (Num new) (Num old),
              Trigger EnterAny (Num new) (Num old)] \<and>
           currentBreakpoint s' = Num new"
  using assms
  by (simp add: onResize_def resize_def Let_def enterBreakpoint_emitted exitBreakpoint_emitted
      exitBreakpoint_frame)

theorem C3_witness:
  "determineCurrentBreakpoint (at600\<lparr>width := 1300\<rparr>) = Inr (Num 1200) \<and>
   currentBreakpoint at600 = Num 480 \<and>
   emitted (state_of (onResize at600 1300)) = emitted at600 @
     [Trigger (ExitAt (Num 480)) (Num 480) (Num 480),
      Trigger ExitAny (Num 480) (Num 480),
      Trigger (EnterAt (Num 1200)) (Num 1200) (Num 480),
      Trigger EnterAny (Num 1200) (Num 480)] \<and>
   currentBreakpoint (state_of (onResize at600 1300)) = Num 1200"
proof -
  have a: "determineCurrentBreakpoint (at600\<lparr>width := 1300\<rparr>) = Inr (Num 1200)"
    by (simp add: at600_eq determineCurrentBreakpoint_def determineLoop_default_1300)
  have b: "currentBreakpoint at600 = Num 480" by (simp add: at600_eq)
  from C3_resize_order [OF a b] show ?thesis
    using a b by (auto simp: state_of_def)
qed

text \<open>
  C4. For a breakpoint value that is zero, negative (the value \<open>-1\<close> among them) or
  \<^verbatim>\<open>null\<close>, \<^verbatim>\<open>_enterBreakpoint\<close> and \<^verbatim>\<open>_exitBreakpoint\<close> return at their guard: no
  signal is emitted and the body's class list is untouched.
\<close>

theorem C4_guard:
  "n \<le> 0 \<Longrightarrow>
     enterBreakpoint s (Num n) = s \<and> exitBreakpoint s (Num n) = s \<and>
     enterBreakpoint s Null = s \<and> exitBreakpoint s Null = s"
  by (simp add: enterBreakpoint_def exitBreakpoint_def js_le_def)

theorem C4_witness:
  "(- 1 :: int) \<le> 0 \<and>
   enterBreakpoint at600 (Num (- 1)) = at600 \<and> exitBreakpoint at600 (Num (- 1)) = at600 \<and>
   enterBreakpoint at600 Null = at600 \<and> exitBreakpoint at600 Null = at600"
  using C4_guard [where n = "- 1" and s = at600] by simp

section \<open>Reset\<close>

text \<open>
  C8. \<^verbatim>\<open>reset\<close> is idempotent: a second \<^verbatim>\<open>reset\<close> leaves the whole state, the emitted
  signals, the active breakpoint and the stored width included, as the first left it.
\<close>

theorem C8_reset_idempotent: "reset (reset s) = reset s"
  by (simp add: reset_def unbind_def Dom_off_def addEventListener_def signalWindow_off_def
      exitBreakpoint_def removeClass_def trigger_def Let_def)

theorem C8_witness:
  "reset (reset at600) = reset at600 \<and> emitted (reset (reset at600)) = emitted (reset at600)"
  using C8_reset_idempotent [of at600] by simp

section \<open>Configure\<close>

lemma configure_defaults:
  assumes d: "defaults s = \<lparr> classBody = Some cb, breakpoints = Some d \<rparr>"
  shows "\<exists>s'. configure s settings = Inr s' \<and>
     options s' = \<lparr> classBody = Some (case classBody settings of None \<Rightarrow> cb | Some b \<Rightarrow> b),
                    breakpoints = Some (case breakpoints settings of None \<Rightarrow> d | Some r \<Rightarrow> r) \<rparr> \<and>
     heap s' = (heap s)((case breakpoints settings of None \<Rightarrow> d | Some r \<Rightarrow> r) :=
                  sort (heap s (case breakpoints settings of None \<Rightarrow> d | Some r \<Rightarrow> r))) \<and>
     defaults s' = defaults s \<and> nextRef s' = nextRef s \<and> width s' = width s \<and>
     currentBreakpoint s' =
       determineLoop (width s) (sort (heap s (case breakpoints settings of None \<Rightarrow> d | Some r \<Rightarrow> r))) 0"
  using d
  by (simp add: configure_def assign_def numericSort_def bind_def Dom_on_def
      addEventListener_def signalWindow_on_def determineCurrentBreakpoint_def Let_def
      enterBreakpoint_frame split: option.splits)

text \<open>
  C10. When the settings carry a breakpoints array, \<^verbatim>\<open>configure\<close> sorts that very
  array in place: afterwards the caller's array holds its elements in ascending order,
  and the options refer to the same array, not to a copy.
\<close>

theorem C10_sorts_callers_array:
  assumes "breakpoints settings = Some r"
  shows "\<exists>s'. configure s settings = Inr s' \<and>
           breakpoints (options s') = Some r \<and>
           heap s' r = sort (heap s r) \<and>
           (\<forall>r'. r' \<noteq> r \<longrightarrow> heap s' r' = heap s r')"
  using assms
  by (simp add: configure_def assign_def numericSort_def bind_def Dom_on_def
      addEventListener_def signalWindow_on_def determineCurrentBreakpoint_def Let_def
      enterBreakpoint_frame split: option.splits)

theorem C10_witness:
  "breakpoints arraySettings = Some 1 \<and>
   heap withArray 1 = [768, 320, 1200] \<and>
   heap (state_of (configure withArray arraySettings)) 1 = [320, 768, 1200] \<and>
   breakpoints (options (state_of (configure withArray arraySettings))) = Some 1"
proof -
  have a: "breakpoints arraySettings = Some 1" by (simp add: arraySettings_def)
  have h: "heap withArray 1 = [768, 320, 1200]"
    by (simp add: withArray_def newArray_def initial_def)
  from C10_sorts_callers_array [OF a, of withArray] show ?thesis
    using a h by (auto simp: state_of_def)
qed

lemma sort_default: "sort [320, 480, 768, 992, 1200 :: int] = [320, 480, 768, 992, 1200]"
  by simp

lemma configure_keeps_defaults:
  assumes d: "defaults s = \<lparr> classBody = Some True, breakpoints = Some d \<rparr>"
    and h: "heap s d = [320, 480, 768, 992, 1200]"
  shows "\<exists>s'. configure s settings = Inr s' \<and>
           classBody (options s') = Some (case classBody settings of None \<Rightarrow> True | Some b \<Rightarrow> b) \<and>
           (\<exists>arr. breakpoints (options s') = Some arr \<and>
              arr = (case breakpoints settings of None \<Rightarrow> d | Some r \<Rightarrow> r) \<and>
              heap s' arr = sort (case breakpoints settings of
                                    None \<Rightarrow> [320, 480, 768, 992, 1200] | Some r \<Rightarrow> heap s r)) \<and>
           defaults s' = defaults s \<and> heap s' d = [320, 480, 768, 992, 1200] \<and>
           nextRef s' = nextRef s"
proof -
  obtain s' where s': "configure s settings = Inr s'"
     "options s' = \<lparr> classBody = Some (case classBody settings of None \<Rightarrow> True | Some b \<Rightarrow> b),
                    breakpoints = Some (case breakpoints settings of None \<Rightarrow> d | Some r \<Rightarrow> r) \<rparr>"
     "heap s' = (heap s)((case breakpoints settings of None \<Rightarrow> d | Some r \<Rightarrow> r) :=
                  sort (heap s (case breakpoints settings of None \<Rightarrow> d | Some r \<Rightarrow> r)))"
     "defaults s' = defaults s" "nextRef s' = nextRef s"
    using configure_defaults [OF d, of settings] by blast
  have hd: "heap s' d = [320, 480, 768, 992, 1200]"
    using s'(3) h by (simp add: sort_default)
  have ha: "heap s' (case breakpoints settings of None \<Rightarrow> d | Some r \<Rightarrow> r) =
      sort (case breakpoints settings of None \<Rightarrow> [320, 480, 768, 992, 1200] | Some r \<Rightarrow> heap s r)"
    using s'(3) h by (simp split: option.splits)
  have cb: "classBody (options s') = Some (case classBody settings of None \<Rightarrow> True | Some b \<Rightarrow> b)"
    and bp: "breakpoints (options s') = Some (case breakpoints settings of None \<Rightarrow> d | Some r \<Rightarrow> r)"
    using s'(2) by simp_all
  show ?thesis
    using s'(1) cb bp ha hd s'(4) s'(5) by blast
qed

lemma configureAll_keeps_defaults:
  "defaults s = \<lparr> classBody = Some True, breakpoints = Some d \<rparr> \<Longrightarrow>
   heap s d = [320, 480, 768, 992, 1200] \<Longrightarrow>
   \<exists>s'. configureAll s cs = Inr s' \<and> defaults s' = defaults s \<and>
        heap s' d = [320, 480, 768, 992, 1200]"
proof (induction cs arbitrary: s)
  case Nil
  then show ?case by simp
next
  case (Cons c cs)
  obtain s1 where s1: "configure s c = Inr s1" "defaults s1 = defaults s"
      "heap s1 d = [320, 480, 768, 992, 1200]"
    using configure_keeps_defaults [OF Cons.prems, of c] by blast
  have "defaults s1 = \<lparr> classBody = Some True, breakpoints = Some d \<rparr>"
    using s1(2) Cons.prems(1) by simp
  from Cons.IH [OF this s1(3)] show ?case using s1 by auto
qed

text \<open>
  C6. \<^verbatim>\<open>configure\<close> lays the settings over the defaults (\<^verbatim>\<open>classBody\<close> true,
  breakpoints 320, 480, 768, 992, 1200), sorts the breakpoints ascending, and leaves the
  defaults with their original values; so does any sequence of \<^verbatim>\<open>configure\<close> calls.
\<close>

theorem C6_configure_defaults:
  assumes d: "defaults s = \<lparr> classBody = Some True, breakpoints = Some d \<rparr>"
    and h: "heap s d = [320, 480, 768, 992, 1200]"
  shows "(\<exists>s'. configure s settings = Inr s' \<and>
            classBody (options s') = Some (case classBody settings of None \<Rightarrow> True | Some b \<Rightarrow> b) \<and>
            (\<exists>arr. breakpoints (options s') = Some arr \<and>
               heap s' arr = sort (case breakpoints settings of
                                     None \<Rightarrow> [320, 480, 768, 992, 1200] | Some r \<Rightarrow> heap s r)) \<and>
            defaults s' = defaults s \<and> heap s' d = [320, 480, 768, 992, 1200]) \<and>
         (\<exists>s'. configureAll s cs = Inr s' \<and> defaults s' = defaults s \<and>
            heap s' d = [320, 480, 768, 992, 1200])"
  using configure_keeps_defaults [OF d h, of settings] configureAll_keeps_defaults [OF d h, of cs]
  by blast

lemma withArray_fields:
  "defaults withArray = \<lparr> classBody = Some True, breakpoints = Some 0 \<rparr>"
  "heap withArray 0 = [320, 480, 768, 992, 1200]"
  "heap withArray 1 = [768, 320, 1200]"
  "nextRef withArray = 2"
  "heap withArray (Suc 0) = [768, 320, 1200]"
  by (simp_all add: withArray_def newArray_def initial_def)

theorem C6_witness:
  "defaults withArray = \<lparr> classBody = Some True, breakpoints = Some 0 \<rparr> \<and>
   heap withArray 0 = [320, 480, 768, 992, 1200] \<and>
   classBody (options (state_of (configure withArray arraySettings))) = Some False \<and>
   defaults (state_of (configureAll withArray [arraySettings, noSettings])) = defaults withArray \<and>
   heap (state_of (configureAll withArray [arraySettings, noSettings])) 0 =
     [320, 480, 768, 992, 1200]"
proof -
  note d = withArray_fields(1) and h = withArray_fields(2)
  from C6_configure_defaults [OF d h, of arraySettings "[arraySettings, noSettings]"]
  show ?thesis
    using d h by (auto simp: state_of_def arraySettings_def)
qed

section \<open>Reading the configuration\<close>

text \<open>
  C7. After \<^verbatim>\<open>configure\<close>, \<^verbatim>\<open>getConfig\<close> returns an object whose value is that of the
  options: the merged flag and the breakpoints in ascending order. Its array is a new
  one, different from the array of the options and from the array of the defaults, so
  whatever is written to it changes neither the options, the defaults, their arrays, the
  breakpoint the module determines, nor the value a later \<^verbatim>\<open>getConfig\<close> returns.
\<close>

theorem C7_getConfig_copy:
  assumes d: "defaults s0 = \<lparr> classBody = Some True, breakpoints = Some d \<rparr>"
    and h: "heap s0 d = [320, 480, 768, 992, 1200]"
    and ad: "d < nextRef s0"
    and as: "allocated s0 settings"
    and conf: "configure s0 settings = Inr s"
    and g: "getConfig s = (c, s1)"
  shows "config_value (heap s1) c = config_value (heap s) (options s) \<and>
         config_value (heap s1) c =
           (Some (case classBody settings of None \<Rightarrow> True | Some b \<Rightarrow> b),
            Some (sort (case breakpoints settings of
                          None \<Rightarrow> [320, 480, 768, 992, 1200] | Some r \<Rightarrow> heap s0 r))) \<and>
         (\<exists>r' arr. breakpoints c = Some r' \<and> breakpoints (options s1) = Some arr \<and>
            r' \<noteq> arr \<and> r' \<noteq> d \<and>
            options (writeArray s1 r' xs) = options s1 \<and>
            defaults (writeArray s1 r' xs) = defaults s1 \<and>
            heap (writeArray s1 r' xs) arr = heap s1 arr \<and>
            heap (writeArray s1 r' xs) d = heap s1 d \<and>
            determineCurrentBreakpoint (writeArray s1 r' xs) = determineCurrentBreakpoint s1 \<and>
            config_value (heap (snd (getConfig (writeArray s1 r' xs))))
                (fst (getConfig (writeArray s1 r' xs))) = config_value (heap s) (options s))"
proof -
  let ?arr = "case breakpoints settings of None \<Rightarrow> d | Some r \<Rightarrow> r"
  let ?bps = "sort (case breakpoints settings of
                      None \<Rightarrow> [320, 480, 768, 992, 1200] | Some r \<Rightarrow> heap s0 r)"
  have s: "classBody (options s) = Some (case classBody settings of None \<Rightarrow> True | Some b \<Rightarrow> b)"
       "breakpoints (options s) = Some ?arr" "heap s ?arr = ?bps" "nextRef s = nextRef s0"
       "defaults s = defaults s0"
    using configure_keeps_defaults [OF d h, of settings] conf by auto
  have lt: "?arr < nextRef s"
    using ad as s(4) by (simp add: allocated_def split: option.splits)
  have c: "c = \<lparr> classBody = classBody (options s), breakpoints = Some (nextRef s) \<rparr>"
    and s1: "s1 = s\<lparr>heap := (heap s)(nextRef s := heap s ?arr), nextRef := Suc (nextRef s)\<rparr>"
    using g s(2) by (simp_all add: getConfig_def)
  have ne: "nextRef s \<noteq> ?arr" "nextRef s \<noteq> d" using lt ad s(4) by simp_all
  have v: "config_value (heap s) (options s) = (classBody (options s), Some ?bps)"
    using s by (simp add: config_value_def)
  have v1: "config_value (heap s1) c = config_value (heap s) (options s)"
    using s c s1 by (simp add: config_value_def)
  have frame: "options (writeArray s1 (nextRef s) xs) = options s1"
      "defaults (writeArray s1 (nextRef s) xs) = defaults s1"
      "heap (writeArray s1 (nextRef s) xs) ?arr = heap s1 ?arr"
      "heap (writeArray s1 (nextRef s) xs) d = heap s1 d"
    using ne by (simp_all add: writeArray_def s1)
  have det: "determineCurrentBreakpoint (writeArray s1 (nextRef s) xs) = determineCurrentBreakpoint s1"
    using ne s(2) by (simp add: determineCurrentBreakpoint_def writeArray_def s1)
  have again: "config_value (heap (snd (getConfig (writeArray s1 (nextRef s) xs))))
                (fst (getConfig (writeArray s1 (nextRef s) xs))) = config_value (heap s) (options s)"
    using ne s by (simp add: getConfig_def writeArray_def s1 config_value_def)
  have o1: "breakpoints (options s1) = Some ?arr" using s(2) by (simp add: s1)
  have bc: "breakpoints c = Some (nextRef s)" by (simp add: c)
  show ?thesis
    using v v1 s(1) frame det again o1 bc ne by auto
qed

theorem C7_witness:
  "defaults withArray = \<lparr> classBody = Some True, breakpoints = Some 0 \<rparr> \<and>
   heap withArray 0 = [320, 480, 768, 992, 1200] \<and>
   0 < nextRef withArray \<and>
   allocated withArray arraySettings \<and>
   configure withArray arraySettings = Inr (state_of (configure withArray arraySettings)) \<and>
   config_value
     (heap (snd (getConfig (state_of (configure withArray arraySettings)))))
     (fst (getConfig (state_of (configure withArray arraySettings)))) =
     (Some False, Some [320, 768, 1200])"
proof -
  note d = withArray_fields(1) and h = withArray_fields(2)
  have ad: "0 < nextRef withArray" by (simp add: withArray_fields)
  have as: "allocated withArray arraySettings"
    by (simp add: allocated_def arraySettings_def withArray_fields)
  have conf: "configure withArray arraySettings = Inr (state_of (configure withArray arraySettings))"
    using configure_defaults [OF d, of arraySettings] by (auto simp: state_of_def)
  have g: "getConfig (state_of (configure withArray arraySettings)) =
      (fst (getConfig (state_of (configure withArray arraySettings))),
       snd (getConfig (state_of (configure withArray arraySettings))))"
    by simp
  from C7_getConfig_copy [OF d h ad as conf g, of "[]"]
  have v: "config_value
     (heap (snd (getConfig (state_of (configure withArray arraySettings)))))
     (fst (getConfig (state_of (configure withArray arraySettings)))) =
     (Some (case classBody arraySettings of None \<Rightarrow> True | Some b \<Rightarrow> b),
      Some (sort (case breakpoints arraySettings of
                    None \<Rightarrow> [320, 480, 768, 992, 1200] | Some r \<Rightarrow> heap withArray r)))"
    by blast
  have e: "(Some (case classBody arraySettings of None \<Rightarrow> True | Some b \<Rightarrow> b),
      Some (sort (case breakpoints arraySettings of
                    None \<Rightarrow> [320, 480, 768, 992, 1200] | Some r \<Rightarrow> heap withArray r))) =
      (Some False, Some [320, 768, 1200])"
    by (simp add: arraySettings_def withArray_fields)
  from v e have "config_value
     (heap (snd (getConfig (state_of (configure withArray arraySettings)))))
     (fst (getConfig (state_of (configure withArray arraySettings)))) =
     (Some False, Some [320, 768, 1200])"
    by (rule trans)
  with d h ad as conf show ?thesis by blast
qed

section \<open>Reset and the subscriptions\<close>

lemma determineLoop_default_800:
  "determineLoop 800 [320, 480, 768, 992, 1200] 0 = Num 768"
  by (simp add: determineLoop.simps arr_get_def js_le_def js_ge_def js_lt_def)

lemma at800_eq:
  "at800 =
     \<lparr> width = 800,
       currentBreakpoint = Num 768,
       options = \<lparr> classBody = Some True, breakpoints = Some 0 \<rparr>,
       defaults = \<lparr> classBody = Some True, breakpoints = Some 0 \<rparr>,
       heap = (\<lambda>_. [])(0 := [320, 480, 768, 992, 1200]),
       nextRef = 1,
       bodyClasses = [Num 768],
       emitted = [Trigger (EnterAt (Num 768)) (Num 768) (Num 768),
                  Trigger EnterAny (Num 768) (Num 768)],
       resizeHandlers = 1,
       focusListener = True \<rparr>"
  by (simp add: at800_def state_of_def configure_def initial_def noSettings_def assign_def numericSort_def bind_def
      Dom_on_def addEventListener_def signalWindow_on_def determineCurrentBreakpoint_def
      determineLoop_default_800 enterBreakpoint_def js_le_def addClass_def trigger_def Let_def)

lemma reset_at800_eq:
  "reset at800 =
     \<lparr> width = 800,
       currentBreakpoint = Null,
       options = \<lparr> classBody = Some True, breakpoints = Some 0 \<rparr>,
       defaults = \<lparr> classBody = Some True, breakpoints = Some 0 \<rparr>,
       heap = (\<lambda>_. [])(0 := [320, 480, 768, 992, 1200]),
       nextRef = 1,
       bodyClasses = [],
       emitted = [Trigger (EnterAt (Num 768)) (Num 768) (Num 768),
                  Trigger EnterAny (Num 768) (Num 768),
                  Trigger (ExitAt (Num 768)) (Num 768) (Num 768),
                  Trigger ExitAny (Num 768) (Num 768)],
       resizeHandlers = 0,
       focusListener = True \<rparr>"
  by (simp add: at800_eq reset_def unbind_def Dom_off_def addEventListener_def
      signalWindow_off_def exitBreakpoint_def removeClass_def trigger_def js_le_def Let_def)

lemma reset_fields:
  "currentBreakpoint (reset s) = Null"
  "width (reset s) = width s"
  "options (reset s) = options s"
  "defaults (reset s) = defaults s"
  "heap (reset s) = heap s"
  "nextRef (reset s) = nextRef s"
  "resizeHandlers (reset s) = 0"
  "focusListener (reset s) = True"
  by (simp_all add: reset_def unbind_def Dom_off_def addEventListener_def signalWindow_off_def
      exitBreakpoint_frame Let_def)

text \<open>
  C5, as the code has it. After \<^verbatim>\<open>reset\<close> the active breakpoint is \<^verbatim>\<open>null\<close>; the
  exit signals, specific then generic, have been emitted once for the breakpoint that
  was active when it was a positive number, and nothing has been emitted otherwise; no
  handler is left on the window's resize signal, so a later width change emits nothing
  and changes nothing.
\<close>

theorem C5_reset:
  "currentBreakpoint (reset s) = Null \<and>
   emitted (reset s) = emitted s @
     (case currentBreakpoint s of
        Num b \<Rightarrow> if 0 < b
          then [Trigger (ExitAt (Num b)) (Num b) (Num b), Trigger ExitAny (Num b) (Num b)]
          else []
      | _ \<Rightarrow> []) \<and>
   resizeHandlers (reset s) = 0 \<and>
   windowResize (reset s) w = Inr (reset s)"
  by (cases "currentBreakpoint s")
     (simp_all add: reset_fields windowResize_def,
      simp_all add: reset_def unbind_def Dom_off_def addEventListener_def signalWindow_off_def
        exitBreakpoint_emitted Let_def)

theorem C5_witness:
  "currentBreakpoint (reset at800) = Null \<and>
   emitted (reset at800) = emitted at800 @
     [Trigger (ExitAt (Num 768)) (Num 768) (Num 768), Trigger ExitAny (Num 768) (Num 768)] \<and>
   windowResize (reset at800) 1300 = Inr (reset at800)"
proof -
  have c: "currentBreakpoint at800 = Num 768" by (simp add: at800_eq)
  from C5_reset [of at800 1300] show ?thesis by (simp add: c)
qed

text \<open>
  C5 as stated fails: after \<^verbatim>\<open>reset\<close> the active breakpoint is \<^verbatim>\<open>null\<close>, not \<open>-1\<close>,
  and \<^verbatim>\<open>_resize\<close> is still a listener of the focus event (\<^verbatim>\<open>Dom.prototype.off\<close> adds
  the listener instead of removing it), so the next focus event enters 768 again.
\<close>

theorem C5_counterexample:
  "currentBreakpoint (reset at800) \<noteq> Num (- 1) \<and>
   focusListener (reset at800) \<and>
   emitted (state_of (windowFocus (reset at800))) =
     emitted (reset at800) @
       [Trigger (EnterAt (Num 768)) (Num 768) Null, Trigger EnterAny (Num 768) Null] \<and>
   currentBreakpoint (state_of (windowFocus (reset at800))) = Num 768"
  by (simp add: reset_at800_eq windowFocus_def resize_def determineCurrentBreakpoint_def
      determineLoop_default_800 exitBreakpoint_def enterBreakpoint_def addClass_def trigger_def
      js_le_def state_of_def Let_def)

section \<open>The states reachable after configure\<close>

lemma determineLoop_member:
  "determineLoop w bps idx \<in> Num ` set bps \<or> determineLoop w bps idx = Num (- 1)"
proof (induction "length bps - idx" arbitrary: idx)
  case 0
  then show ?case by (simp add: determineLoop.simps)
next
  case (Suc n)
  then have idx: "idx < length bps" by simp
  then have here: "arr_get bps (int idx) = Num (bps ! idx)" by (simp add: arr_get_def)
  have mem: "Num (bps ! idx) \<in> Num ` set bps" using idx by simp
  define rest where "rest = determineLoop w bps (idx + 1)"
  have step: "determineLoop w bps idx =
     (if falsy (arr_get bps (int idx - 1)) \<and> js_le (Num w) (Num (bps ! idx)) then Num (bps ! idx)
      else if falsy (arr_get bps (int idx + 1)) then Num (bps ! idx)
      else if js_ge (Num w) (Num (bps ! idx)) \<and> js_lt (Num w) (arr_get bps (int idx + 1))
      then Num (bps ! idx)
      else rest)"
    unfolding rest_def using idx by (subst determineLoop.simps) (simp add: Let_def here)
  have "determineLoop w bps idx = Num (bps ! idx) \<or> determineLoop w bps idx = rest"
    unfolding step by simp
  then have "determineLoop w bps idx = Num (bps ! idx) \<or>
        determineLoop w bps idx = determineLoop w bps (idx + 1)"
    by (simp add: rest_def)
  moreover have "determineLoop w bps (idx + 1) \<in> Num ` set bps \<or>
                 determineLoop w bps (idx + 1) = Num (- 1)"
    using Suc.hyps(2) by (intro Suc.hyps(1)) simp
  ultimately show ?case using mem by auto
qed

lemma resize_configured:
  assumes "configured_inv s"
  shows "\<exists>s'. resize s = Inr s' \<and> configured_inv s'"
proof -
  obtain r where r: "breakpoints (options s) = Some r" "r < nextRef s" "sorted (heap s r)"
    using assms by (auto simp: configured_inv_def)
  let ?v = "determineLoop (width s) (heap s r) 0"
  have d: "determineCurrentBreakpoint s = Inr ?v"
    using r by (simp add: determineCurrentBreakpoint_def)
  have v: "?v \<in> Num ` set (heap s r) \<or> ?v = Num (- 1)" by (rule determineLoop_member)
  show ?thesis
  proof (cases "?v = currentBreakpoint s")
    case True
    then have "resize s = Inr s" using d by (simp add: resize_def)
    then show ?thesis using assms by simp
  next
    case False
    let ?s' = "(enterBreakpoint (exitBreakpoint s (currentBreakpoint s)) ?v)\<lparr>currentBreakpoint := ?v\<rparr>"
    have "resize s = Inr ?s'" using d False by (simp add: resize_def Let_def)
    moreover have "configured_inv ?s'"
      using r v by (auto simp: configured_inv_def enterBreakpoint_frame exitBreakpoint_frame)
    ultimately show ?thesis by blast
  qed
qed

lemma configured_inv_width: "configured_inv (s\<lparr>width := w\<rparr>) = configured_inv s"
  by (simp add: configured_inv_def)

lemma callHandlers_configured:
  "configured_inv s \<Longrightarrow> \<exists>s'. callHandlers n w s = Inr s' \<and> configured_inv s'"
proof (induction n arbitrary: s)
  case 0
  then show ?case by simp
next
  case (Suc n)
  have "configured_inv (s\<lparr>width := w\<rparr>)" using Suc.prems by (simp add: configured_inv_width)
  then obtain s1 where s1: "onResize s w = Inr s1" "configured_inv s1"
    using resize_configured unfolding onResize_def by blast
  then show ?case using Suc.IH [OF s1(2)] by simp
qed

lemma step_configured:
  assumes "configured_inv s"
  shows "\<exists>s'. step s c = Inr s' \<and> configured_inv s'"
proof (cases c)
  case (ResizeEvent w)
  then show ?thesis using callHandlers_configured [OF assms] by (simp add: windowResize_def)
next
  case FocusEvent
  then show ?thesis using resize_configured [OF assms] assms by (simp add: windowFocus_def)
next
  case GetCurrent
  obtain r where r: "breakpoints (options s) = Some r" "r < nextRef s" "sorted (heap s r)"
    using assms by (auto simp: configured_inv_def)
  have "determineLoop (width s) (heap s r) 0 \<in> Num ` set (heap s r) \<or>
        determineLoop (width s) (heap s r) 0 = Num (- 1)" by (rule determineLoop_member)
  then show ?thesis
    using GetCurrent r
    by (auto simp: getCurrent_def determineCurrentBreakpoint_def configured_inv_def)
next
  case GetConfig
  then show ?thesis using assms
    by (auto simp: getConfig_def configured_inv_def)
next
  case Reset
  then show ?thesis using assms
    by (auto simp: configured_inv_def reset_def unbind_def Dom_off_def addEventListener_def
        signalWindow_off_def exitBreakpoint_frame Let_def)
qed

lemma run_configured:
  "configured_inv s \<Longrightarrow> \<exists>s'. run s cs = Inr s' \<and> configured_inv s'"
proof (induction cs arbitrary: s)
  case Nil
  then show ?case by simp
next
  case (Cons c cs)
  obtain s1 where s1: "step s c = Inr s1" "configured_inv s1"
    using step_configured [OF Cons.prems] by blast
  then show ?case using Cons.IH [OF s1(2)] by simp
qed

lemma configure_configured:
  assumes conf: "configure s0 settings = Inr s"
    and a: "allocated s0 (options s0)" "allocated s0 (defaults s0)" "allocated s0 settings"
  shows "configured_inv s"
proof -
  let ?o = "assign (assign (options s0) (defaults s0)) settings"
  obtain arr where arr: "breakpoints ?o = Some arr"
    using conf by (cases "breakpoints ?o") (simp_all add: configure_def Let_def)
  have lt: "arr < nextRef s0"
    using arr a by (auto simp: assign_def allocated_def split: option.splits)
  let ?v = "determineLoop (width s0) (sort (heap s0 arr)) 0"
  have v: "?v \<in> Num ` set (sort (heap s0 arr)) \<or> ?v = Num (- 1)" by (rule determineLoop_member)
  have "breakpoints (options s) = Some arr \<and> nextRef s = nextRef s0 \<and>
        heap s arr = sort (heap s0 arr) \<and> currentBreakpoint s = ?v"
    using conf arr
    by (auto simp: configure_def numericSort_def bind_def Dom_on_def addEventListener_def
        signalWindow_on_def determineCurrentBreakpoint_def Let_def enterBreakpoint_frame)
  then show ?thesis using lt v by (auto simp: configured_inv_def)
qed

text \<open>
  C9, as the code has it. After \<^verbatim>\<open>configure\<close>, any sequence of resize events, focus
  events, \<^verbatim>\<open>getCurrent\<close>, \<^verbatim>\<open>getConfig\<close> and \<^verbatim>\<open>reset\<close> calls runs without a throw and
  ends in a state whose breakpoints are ascending and whose active breakpoint is one of
  them, \<open>-1\<close>, or \<^verbatim>\<open>null\<close>.
\<close>

theorem C9_invariant:
  assumes conf: "configure s0 settings = Inr s"
    and a: "allocated s0 (options s0)" "allocated s0 (defaults s0)" "allocated s0 settings"
  shows "\<exists>s' r. run s calls = Inr s' \<and> breakpoints (options s') = Some r \<and>
           sorted (heap s' r) \<and>
           (currentBreakpoint s' \<in> Num ` set (heap s' r) \<or>
            currentBreakpoint s' = Num (- 1) \<or> currentBreakpoint s' = Null)"
proof -
  have "configured_inv s" using conf a by (rule configure_configured)
  then obtain s' where "run s calls = Inr s'" "configured_inv s'"
    using run_configured by blast
  then show ?thesis by (auto simp: configured_inv_def)
qed

lemma configure_initial_600: "configure (initial 600) noSettings = Inr at600"
proof -
  have "defaults (initial 600) = \<lparr> classBody = Some True, breakpoints = Some 0 \<rparr>"
    by (simp add: initial_def)
  from configure_defaults [OF this, of noSettings] show ?thesis
    by (auto simp: at600_def state_of_def)
qed

theorem C9_witness:
  "configure (initial 600) noSettings = Inr at600 \<and>
   allocated (initial 600) (options (initial 600)) \<and>
   allocated (initial 600) (defaults (initial 600)) \<and>
   allocated (initial 600) noSettings \<and>
   (\<exists>s' r. run at600 [ResizeEvent 1300, Reset, FocusEvent, GetConfig, GetCurrent] = Inr s' \<and>
      breakpoints (options s') = Some r \<and> sorted (heap s' r) \<and>
      (currentBreakpoint s' \<in> Num ` set (heap s' r) \<or>
       currentBreakpoint s' = Num (- 1) \<or> currentBreakpoint s' = Null))"
proof -
  have a: "allocated (initial 600) (options (initial 600))"
    "allocated (initial 600) (defaults (initial 600))"
    "allocated (initial 600) noSettings"
    by (simp_all add: allocated_def initial_def noSettings_def)
  from C9_invariant [OF configure_initial_600 a,
      of "[ResizeEvent 1300, Reset, FocusEvent, GetConfig, GetCurrent]"]
  show ?thesis using configure_initial_600 a by blast
qed

text \<open>
  C9 as stated fails: after \<^verbatim>\<open>reset\<close> the active breakpoint is \<^verbatim>\<open>null\<close>, which is
  neither a configured breakpoint nor \<open>-1\<close>.
\<close>

theorem C9_counterexample:
  "breakpoints (options (reset at600)) = Some 0 \<and>
   currentBreakpoint (reset at600) \<notin> Num ` set (heap (reset at600) 0) \<and>
   currentBreakpoint (reset at600) \<noteq> Num (- 1)"
  by (simp add: reset_fields at600_eq image_iff)


end
